theory Spec2Isabelle
  imports Main "HOL-Library.Word" "HOL-Library.AList" "HOL-Library.Char_ord"
    "HOL-Library.List_Lexorder" "HOL-Library.Multiset"
begin

section \<open>A shallow embedding of ejuju/go-logs\<close>

text \<open>
  The repository is a small Go logging package kept in several historical variants:
  \<^verbatim>\<open>logger.go\<close> (the record with level and timestamp, \<^verbatim>\<open>New\<close>, and the
  \<^verbatim>\<open>DefaultLogger\<close> with its \<^verbatim>\<open>writerWrapper\<close>), \<^verbatim>\<open>json_logger.go\<close>
  (\<^verbatim>\<open>JSONLogger\<close>), \<^verbatim>\<open>level.go\<close>, and the single-file variant with
  \<^verbatim>\<open>NewLog\<close>, the options, the serializers and the same \<^verbatim>\<open>DefaultLogger\<close>.

  Conventions of the embedding:
  \<^item> a Go \<^verbatim>\<open>string\<close> and a \<^verbatim>\<open>[]byte\<close> are both byte sequences: \<^typ>\<open>string\<close>
    (a \<^typ>\<open>char\<close> is one byte);
  \<^item> a Go \<^verbatim>\<open>int\<close> is a 64-bit two's complement word (a 64-bit platform), read with
    \<^const>\<open>sint\<close>;
  \<^item> a Go \<^verbatim>\<open>error\<close> is \<^verbatim>\<open>error option\<close>, \<^const>\<open>None\<close> being \<^verbatim>\<open>nil\<close>;
  \<^item> a function that can panic returns \<^verbatim>\<open>panic + 'a\<close>, \<^const>\<open>Inl\<close> being the panic;
  \<^item> a function that takes a \<^verbatim>\<open>*Log\<close> and may write through it returns the record
    as it leaves it;
  \<^item> everything outside the process (the writers' destinations, the clock, the call
    stack, the file system) is an explicit argument;
  \<^item> the mutexes are not modelled: the embedding is sequential.
\<close>

subsection \<open>Bytes, integers, errors\<close>

type_synonym bytes = string

type_synonym go_int = "64 word"

text \<open>
  An error value. \<^verbatim>\<open>Err msg\<close> is any error whose \<^verbatim>\<open>Error()\<close> method returns
  \<^verbatim>\<open>msg\<close>; \<^verbatim>\<open>ErrWrapper errs\<close> is the package's
  \<^verbatim>\<open>type errWrapper []error\<close>; \<^verbatim>\<open>SkipDir\<close> and \<^verbatim>\<open>SkipAll\<close> are the two
  sentinel errors of \<^verbatim>\<open>io/fs\<close>, which \<^verbatim>\<open>fs.WalkDir\<close> compares by identity.
\<close>

datatype error = Err string | ErrWrapper "error list" | SkipDir | SkipAll

text \<open>
  \<^verbatim>\<open>
  func (ew errWrapper) Error() string {
      out := ""
      for i, err := range ew {
          if i > 0 {
              out += ", "
          }
          out += err.Error()
      }
      return out
  }
  \<close>
  \<open>errWrapper_Error ew i out\<close> is the loop at index \<open>i\<close> with \<open>ew\<close> the elements
  still to visit; \<open>Error\<close> dispatches on the dynamic type of the error.
\<close>

fun Error :: "error \<Rightarrow> string"
  and errWrapper_Error :: "error list \<Rightarrow> nat \<Rightarrow> string \<Rightarrow> string" where
  "Error (Err msg) = msg"
| "Error (ErrWrapper ew) = errWrapper_Error ew 0 []"
| "Error SkipDir = ''skip this directory''"
| "Error SkipAll = ''skip everything and stop the walk''"
| "errWrapper_Error [] i out = out"
| "errWrapper_Error (err # ew) i out =
     errWrapper_Error ew (i + 1) ((if i > 0 then out @ '', '' else out) @ Error err)"

text \<open>
  A panic carries a value: the error handed to \<^verbatim>\<open>panic(err)\<close>, or one of the run-time
  errors of the Go runtime that this package can raise.
\<close>

datatype panic =
    PanicErr error
  | IndexOutOfRange
  | NilMapAssignment
  | NilDereference

text \<open>
  \<^verbatim>\<open>strconv.Itoa\<close> and the verb \<^verbatim>\<open>%d\<close> of \<^verbatim>\<open>fmt\<close>: the decimal digits of an
  integer, with a minus sign when it is negative.
\<close>

fun digits :: "nat \<Rightarrow> string" where
  "digits n =
     (if n < 10 then [''0123456789'' ! n]
      else digits (n div 10) @ [''0123456789'' ! (n mod 10)])"

definition Itoa :: "go_int \<Rightarrow> string" where
  "Itoa i = (if sint i < 0 then ''-'' @ digits (nat (- sint i)) else digits (nat (sint i)))"

text \<open>
  \<^verbatim>\<open>bytes.Join(s, sep)\<close> and \<^verbatim>\<open>strings.Join(s, sep)\<close>: the elements of \<open>s\<close> in
  order, with \<open>sep\<close> between each two neighbours.
\<close>

fun Join :: "string list \<Rightarrow> string \<Rightarrow> string" where
  "Join [] sep = []"
| "Join [x] sep = x"
| "Join (x # y # ys) sep = x @ sep @ Join (y # ys) sep"

subsection \<open>Writers and the sink aggregator\<close>

text \<open>
  An \<^verbatim>\<open>io.Writer\<close> writes to something outside the function: \<open>'w\<close> is the state of
  everything the writers write to (files, terminal, buffers), and a writer is its
  \<^verbatim>\<open>Write(p []byte) (n int, err error)\<close> method on that state. Two writers of one list
  may share a destination: they then act on the same part of \<open>'w\<close>. A writer returns:
  one whose \<^verbatim>\<open>Write\<close> panics is outside the embedding.
\<close>

type_synonym 'w Writer = "bytes \<Rightarrow> 'w \<Rightarrow> (go_int \<times> error option) \<times> 'w"

text \<open>
  \<^verbatim>\<open>
  type writerWrapper []io.Writer
  func newWriterWrapper(w ...io.Writer) writerWrapper { return w }

  func (ww writerWrapper) Write(b []byte) (int, error) {
      var numBytesWritten = 0
      var errs errWrapper
      for _, w := range ww {
          n, err := w.Write(b)
          if err != nil {
              errs = append(errs, err)
          }
          numBytesWritten += n
      }
      if errs != nil {
          return numBytesWritten, errs
      }
      return numBytesWritten, nil
  }
  \<close>
  The slice \<^verbatim>\<open>errs\<close> starts \<^verbatim>\<open>nil\<close> and only grows by \<^verbatim>\<open>append\<close> of one element,
  so it is \<^verbatim>\<open>nil\<close> exactly when it is empty: the list \<open>[]\<close> is the \<^verbatim>\<open>nil\<close> slice.
\<close>

definition newWriterWrapper :: "'w Writer list \<Rightarrow> 'w Writer list" where
  "newWriterWrapper w = w"

fun writerWrapper_loop ::
  "'w Writer list \<Rightarrow> bytes \<Rightarrow> go_int \<Rightarrow> error list \<Rightarrow> 'w \<Rightarrow> (go_int \<times> error list) \<times> 'w" where
  "writerWrapper_loop [] b numBytesWritten errs s = ((numBytesWritten, errs), s)"
| "writerWrapper_loop (w # ww) b numBytesWritten errs s =
     (case w b s of
        ((n, err), s') \<Rightarrow>
          writerWrapper_loop ww b (numBytesWritten + n)
            (case err of None \<Rightarrow> errs | Some e \<Rightarrow> errs @ [e]) s')"

definition writerWrapper_Write :: "'w Writer list \<Rightarrow> 'w Writer" where
  "writerWrapper_Write ww b s =
     (case writerWrapper_loop ww b 0 [] s of
        ((numBytesWritten, errs), s') \<Rightarrow>
          if errs \<noteq> [] then ((numBytesWritten, Some (ErrWrapper errs)), s')
          else ((numBytesWritten, None), s'))"


text \<open>
  What the aggregator is specified to do, written without its accumulators: the outcome
  \<^verbatim>\<open>(n, err)\<close> of every writer of the list on \<open>b\<close>, each writer called once, in the
  order of the list, on the state the writers before it left.
\<close>

fun attempts :: "'w Writer list \<Rightarrow> bytes \<Rightarrow> 'w \<Rightarrow> (go_int \<times> error option) list \<times> 'w" where
  "attempts [] b s = ([], s)"
| "attempts (w # ww) b s =
     (case w b s of (r, s') \<Rightarrow> (case attempts ww b s' of (rs, s'') \<Rightarrow> (r # rs, s'')))"

text \<open>The errors of the outcomes that are failures, in the order of the outcomes.\<close>

definition failures :: "(go_int \<times> error option) list \<Rightarrow> error list" where
  "failures rs = List.map_filter snd rs"

text \<open>
  Two writers for concrete runs, over a state that is a list of buffers:
  \<^verbatim>\<open>bufferWriter i\<close> is a \<^verbatim>\<open>*bytes.Buffer\<close> kept at position \<open>i\<close> (its
  \<^verbatim>\<open>Write\<close> appends \<open>p\<close> and returns \<^verbatim>\<open>len(p), nil\<close>); \<^verbatim>\<open>failingWriter n msg\<close> is
  a stub that writes nothing and returns \<^verbatim>\<open>n, errors.New(msg)\<close>.
\<close>

definition bufferWriter :: "nat \<Rightarrow> bytes list Writer" where
  "bufferWriter i p s = ((of_nat (length p), None), s[i := s ! i @ p])"

definition failingWriter :: "go_int \<Rightarrow> string \<Rightarrow> 'w Writer" where
  "failingWriter n msg p s = ((n, Some (Err msg)), s)"

subsection \<open>The log record\<close>

text \<open>
  The values stored under \<^verbatim>\<open>Data map[string]any\<close>. The constructors are the kinds of
  value the package's own options and its examples store: a string, a \<^verbatim>\<open>[]string\<close>
  (\<^verbatim>\<open>os.Args\<close>), a \<^verbatim>\<open>time.Time\<close> (of a year within 0..9999, as \<^verbatim>\<open>time.Now()\<close>
  is), the \<^verbatim>\<open>[]FileInfo\<close> of the file-system options; and two values of types that
  \<^verbatim>\<open>encoding/json\<close> does not encode: a \<^verbatim>\<open>func()\<close> and a \<^verbatim>\<open>chan int\<close>.
\<close>

datatype Time = Time int

record FileInfo =
  Path :: string
  Size :: go_int

datatype any =
    AString string
  | AStrings "string list"
  | ATime Time
  | AFileInfos "FileInfo list"
  | AFunc
  | AChan

text \<open>
  \<^verbatim>\<open>
  type Log struct {
      Message string         `json:"message"`
      Data    map[string]any `json:"data,omitempty"`
  }
  \<close>
  and, in \<^verbatim>\<open>logger.go\<close>, the same with two more fields:
  \<^verbatim>\<open>
  type Log struct {
      CreatedAt time.Time      `json:"created_at"`
      Level     string         `json:"level"`
      Message   string         `json:"message"`
      Data      map[string]any `json:"data,omitempty"`
  }
  \<close>
  A Go map is a reference that may be \<^verbatim>\<open>nil\<close>: \<^const>\<open>None\<close>. A map that is not
  \<^verbatim>\<open>nil\<close> is an association list with one entry per key (the order of the entries
  means nothing: Go maps have none). The second struct is the first one extended, so
  that the options and the loggers, which only touch \<^verbatim>\<open>Message\<close> and \<^verbatim>\<open>Data\<close>, are
  written once for both.
\<close>

record Log =
  Message :: string
  Data :: "(string \<times> any) list option"

record LevelLog = Log +
  CreatedAt :: Time
  Level :: string

text \<open>The statement \<^verbatim>\<open>l.Data[key] = value\<close>: it panics on a \<^verbatim>\<open>nil\<close> map.\<close>

definition Data_assign :: "string \<Rightarrow> any \<Rightarrow> 'a Log_scheme \<Rightarrow> panic + 'a Log_scheme" where
  "Data_assign key v l =
     (case Data l of
        None \<Rightarrow> Inl NilMapAssignment
      | Some m \<Rightarrow> Inr (l\<lparr>Data := Some (AList.update key v m)\<rparr>))"

text \<open>The expression \<^verbatim>\<open>l.Data[key]\<close> with its \<^verbatim>\<open>ok\<close>: a \<^verbatim>\<open>nil\<close> map has no key.\<close>

definition Data_lookup :: "'a Log_scheme \<Rightarrow> string \<Rightarrow> any option" where
  "Data_lookup l key = (case Data l of None \<Rightarrow> None | Some m \<Rightarrow> map_of m key)"

subsection \<open>Options\<close>

text \<open>
  \<^verbatim>\<open>type LogOption func(*Log)\<close>: an option writes through the pointer, or panics.
  \<^verbatim>\<open>
  for _, opt := range opts {
      opt(l)
  }
  \<close>
\<close>

type_synonym 'a LogOption = "'a Log_scheme \<Rightarrow> panic + 'a Log_scheme"

fun apply_options :: "'a LogOption list \<Rightarrow> 'a Log_scheme \<Rightarrow> panic + 'a Log_scheme" where
  "apply_options [] l = Inr l"
| "apply_options (opt # opts) l =
     (case opt l of Inl p \<Rightarrow> Inl p | Inr l' \<Rightarrow> apply_options opts l')"

text \<open>
  \<^verbatim>\<open>
  func NewLog(msg string, opts ...LogOption) *Log {
      l := &Log{Message: msg, Data: map[string]any{}}
      for _, opt := range opts {
          opt(l)
      }
      return l
  }
  \<close>
\<close>

definition NewLog :: "string \<Rightarrow> unit LogOption list \<Rightarrow> panic + Log" where
  "NewLog msg opts = apply_options opts \<lparr>Message = msg, Data = Some []\<rparr>"

definition dataKeyPrefix :: string where "dataKeyPrefix = ''__''"
definition DataKeyTimestamp :: string where "DataKeyTimestamp = dataKeyPrefix @ ''created_at''"
definition DataKeyLevel :: string where "DataKeyLevel = dataKeyPrefix @ ''level''"
definition DataKeySrcFunction :: string where "DataKeySrcFunction = dataKeyPrefix @ ''src_function''"
definition DataKeySrcFileLine :: string where "DataKeySrcFileLine = dataKeyPrefix @ ''src_file_line''"
definition DataKeyFSys :: string where "DataKeyFSys = dataKeyPrefix @ ''fsys''"

text \<open>
  \<^verbatim>\<open>
  func WithData(key string, value any) LogOption {
      return func(l *Log) { l.Data[key] = value }
  }
  func WithTimestamp() LogOption { return func(l *Log) { l.Data[DataKeyTimestamp] = time.Now() } }
  func WithLevel(lvl string) LogOption { return func(l *Log) { l.Data[DataKeyLevel] = lvl } }
  \<close>
  \<open>now\<close> is what \<^verbatim>\<open>time.Now()\<close> returns when the option is applied.
\<close>

definition WithData :: "string \<Rightarrow> any \<Rightarrow> 'a LogOption" where
  "WithData key v l = Data_assign key v l"

definition WithTimestamp :: "Time \<Rightarrow> 'a LogOption" where
  "WithTimestamp now l = Data_assign DataKeyTimestamp (ATime now) l"

definition WithLevel :: "string \<Rightarrow> 'a LogOption" where
  "WithLevel lvl l = Data_assign DataKeyLevel (AString lvl) l"

text \<open>
  \<^verbatim>\<open>
  func WithSrc() LogOption {
      return func(l *Log) {
          pc, file, line, ok := runtime.Caller(2)
          if !ok {
              return
          }
          l.Data[DataKeySrcFunction] = runtime.FuncForPC(pc).Name()
          l.Data[DataKeySrcFileLine] = file + ":" + strconv.Itoa(line)
      }
  }
  func WithSourceCodeLocation(key string, offset int) LogOption {
      return func(l *Log) {
          pc, file, line, ok := runtime.Caller(2 + offset)
          if !ok {
              return
          }
          l.Data[key] = runtime.FuncForPC(pc).Name() + " at " + file + ":" + strconv.Itoa(line)
      }
  }
  \<close>
  The call stack is the argument \<open>Caller\<close>: for a number of frames to skip, the name of
  the function at that frame (\<^verbatim>\<open>runtime.FuncForPC(pc).Name()\<close>), its file and its line,
  or \<^const>\<open>None\<close> when \<^verbatim>\<open>ok\<close> is false.
\<close>

type_synonym Caller = "go_int \<Rightarrow> (string \<times> string \<times> go_int) option"

definition WithSrc :: "Caller \<Rightarrow> 'a LogOption" where
  "WithSrc Caller l =
     (case Caller 2 of
        None \<Rightarrow> Inr l
      | Some (name, file, line) \<Rightarrow>
          (case Data_assign DataKeySrcFunction (AString name) l of
             Inl p \<Rightarrow> Inl p
           | Inr l' \<Rightarrow> Data_assign DataKeySrcFileLine (AString (file @ '':'' @ Itoa line)) l'))"

definition WithSourceCodeLocation :: "Caller \<Rightarrow> string \<Rightarrow> go_int \<Rightarrow> 'a LogOption" where
  "WithSourceCodeLocation Caller key offset l =
     (case Caller (2 + offset) of
        None \<Rightarrow> Inr l
      | Some (name, file, line) \<Rightarrow>
          Data_assign key (AString (name @ '' at '' @ file @ '':'' @ Itoa line)) l)"

subsection \<open>The file-system option\<close>

text \<open>
  The file system handed to the option is outside the repository, and so is the
  standard library's \<^verbatim>\<open>fs.WalkDir\<close> that enumerates it; both are modelled here from the
  library's documentation and source (Go 1.20 and later), so that the option can be run.
  An entry is a file (with its name and what \<^verbatim>\<open>d.Info()\<close> returns: an error, or the
  size) or a directory (with its name, the error of \<^verbatim>\<open>ReadDir\<close> if any, and the entries
  \<^verbatim>\<open>ReadDir\<close> returns, which it sorts by name). An \<^verbatim>\<open>fs.FS\<close> is what \<^verbatim>\<open>Stat\<close> of
  its root gives: an error, or the root entry.
\<close>

datatype DirEntry =
    FileEntry string "error + go_int"
  | DirNode string "error option" "DirEntry list"

type_synonym FS = "error + DirEntry"

fun IsDir :: "DirEntry \<Rightarrow> bool" where
  "IsDir (FileEntry name info) = False"
| "IsDir (DirNode name rerr dirs) = True"

fun Name :: "DirEntry \<Rightarrow> string" where
  "Name (FileEntry name info) = name"
| "Name (DirNode name rerr dirs) = name"

text \<open>
  \<^verbatim>\<open>type WalkDirFunc func(path string, d DirEntry, err error) error\<close>, on the state
  \<open>'s\<close> of the variables the closure captures; \<open>d\<close> is \<^verbatim>\<open>nil\<close> (\<^const>\<open>None\<close>) when
  \<^verbatim>\<open>Stat\<close> of the root failed.
\<close>

type_synonym 's WalkDirFunc =
  "string \<Rightarrow> DirEntry option \<Rightarrow> error option \<Rightarrow> 's \<Rightarrow> panic + (error option \<times> 's)"

text \<open>\<^verbatim>\<open>path.Join(name, d1.Name())\<close> for the clean paths \<^verbatim>\<open>fs.WalkDir\<close> builds from ".".\<close>

definition path_Join :: "string \<Rightarrow> string \<Rightarrow> string" where
  "path_Join name elem = (if name = ''.'' then elem else name @ ''/'' @ elem)"

text \<open>
  \<^verbatim>\<open>
  func walkDir(fsys FS, name string, d DirEntry, walkDirFn WalkDirFunc) error {
      if err := walkDirFn(name, d, nil); err != nil || !d.IsDir() {
          if err == SkipDir && d.IsDir() {
              err = nil
          }
          return err
      }
      dirs, err := ReadDir(fsys, name)
      if err != nil {
          err = walkDirFn(name, d, err)
          if err != nil {
              if err == SkipDir && d.IsDir() {
                  err = nil
              }
              return err
          }
      }
      for _, d1 := range dirs {
          name1 := path.Join(name, d1.Name())
          if err := walkDir(fsys, name1, d1, walkDirFn); err != nil {
              if err == SkipDir {
                  break
              }
              return err
          }
      }
      return nil
  }
  \<close>
\<close>

fun walkDir :: "'s WalkDirFunc \<Rightarrow> string \<Rightarrow> DirEntry \<Rightarrow> 's \<Rightarrow> panic + (error option \<times> 's)"
  and walkDir_loop :: "'s WalkDirFunc \<Rightarrow> string \<Rightarrow> DirEntry list \<Rightarrow> 's \<Rightarrow> panic + (error option \<times> 's)"
  where
  "walkDir walkDirFn name (FileEntry n info) s =
     walkDirFn name (Some (FileEntry n info)) None s"
| "walkDir walkDirFn name (DirNode n rerr dirs) s =
     (case walkDirFn name (Some (DirNode n rerr dirs)) None s of
        Inl p \<Rightarrow> Inl p
      | Inr (Some err, s1) \<Rightarrow> Inr (if err = SkipDir then None else Some err, s1)
      | Inr (None, s1) \<Rightarrow>
          (case rerr of
             None \<Rightarrow> walkDir_loop walkDirFn name dirs s1
           | Some e \<Rightarrow>
               (case walkDirFn name (Some (DirNode n rerr dirs)) (Some e) s1 of
                  Inl p \<Rightarrow> Inl p
                | Inr (Some err, s2) \<Rightarrow> Inr (if err = SkipDir then None else Some err, s2)
                | Inr (None, s2) \<Rightarrow> walkDir_loop walkDirFn name dirs s2)))"
| "walkDir_loop walkDirFn name [] s = Inr (None, s)"
| "walkDir_loop walkDirFn name (d1 # dirs) s =
     (case walkDir walkDirFn (path_Join name (Name d1)) d1 s of
        Inl p \<Rightarrow> Inl p
      | Inr (Some err, s1) \<Rightarrow> Inr (if err = SkipDir then None else Some err, s1)
      | Inr (None, s1) \<Rightarrow> walkDir_loop walkDirFn name dirs s1)"

text \<open>
  \<^verbatim>\<open>
  func WalkDir(fsys FS, root string, fn WalkDirFunc) error {
      info, err := Stat(fsys, root)
      if err != nil {
          err = fn(root, nil, err)
      } else {
          err = walkDir(fsys, root, FileInfoToDirEntry(info), fn)
      }
      if err == SkipDir || err == SkipAll {
          return nil
      }
      return err
  }
  \<close>
\<close>

definition WalkDir :: "FS \<Rightarrow> string \<Rightarrow> 's WalkDirFunc \<Rightarrow> 's \<Rightarrow> panic + (error option \<times> 's)" where
  "WalkDir fsys root fn s =
     (case (case fsys of Inl err \<Rightarrow> fn root None (Some err) s | Inr d \<Rightarrow> walkDir fn root d s) of
        Inl p \<Rightarrow> Inl p
      | Inr (err, s') \<Rightarrow>
          Inr (if err = Some SkipDir \<or> err = Some SkipAll then None else err, s'))"

text \<open>
  \<^verbatim>\<open>
  func WithFS(key string, fsys fs.FS) LogOption {
      type FileInfo struct {
          Path string `json:"path"`
          Size int    `json:"size"`
      }
      return func(l *Log) {
          files := []FileInfo{}
          err := fs.WalkDir(fsys, ".", func(path string, d fs.DirEntry, err error) error {
              if err != nil {
                  return err
              }
              if d.IsDir() {
                  return nil
              }
              info, err := d.Info()
              if err != nil {
                  return err
              }
              files = append(files, FileInfo{
                  Path: path,
                  Size: int(info.Size()),
              })
              return nil
          })
          if err != nil {
              l.Data[key] = err.Error()
          }
          l.Data[key] = files
      }
  }
  \<close>
  The closure handed to \<^verbatim>\<open>fs.WalkDir\<close> captures \<^verbatim>\<open>files\<close>: that is its state.
\<close>

fun WithFS_visit :: "FileInfo list WalkDirFunc" where
  "WithFS_visit path d (Some err) files = Inr (Some err, files)"
| "WithFS_visit path None None files = Inl NilDereference"
| "WithFS_visit path (Some (DirNode n rerr dirs)) None files = Inr (None, files)"
| "WithFS_visit path (Some (FileEntry n (Inl err))) None files = Inr (Some err, files)"
| "WithFS_visit path (Some (FileEntry n (Inr sz))) None files =
     Inr (None, files @ [\<lparr>Path = path, Size = sz\<rparr>])"

definition WithFS :: "string \<Rightarrow> FS \<Rightarrow> 'a LogOption" where
  "WithFS key fsys l =
     (case WalkDir fsys ''.'' WithFS_visit [] of
        Inl p \<Rightarrow> Inl p
      | Inr (err, files) \<Rightarrow>
          (case (case err of
                   None \<Rightarrow> Inr l
                 | Some e \<Rightarrow> Data_assign key (AString (Error e)) l) of
             Inl p \<Rightarrow> Inl p
           | Inr l' \<Rightarrow> Data_assign key (AFileInfos files) l'))"

text \<open>
  \<^verbatim>\<open>WithFSys(fsys fs.FS)\<close> of the single-file variant has the same body, with the
  fixed key \<^verbatim>\<open>DataKeyFSys\<close> where \<^verbatim>\<open>WithFS\<close> has its parameter \<^verbatim>\<open>key\<close>.
\<close>

definition WithFSys :: "FS \<Rightarrow> 'a LogOption" where
  "WithFSys fsys l =
     (case WalkDir fsys ''.'' WithFS_visit [] of
        Inl p \<Rightarrow> Inl p
      | Inr (err, files) \<Rightarrow>
          (case (case err of
                   None \<Rightarrow> Inr l
                 | Some e \<Rightarrow> Data_assign DataKeyFSys (AString (Error e)) l) of
             Inl p \<Rightarrow> Inl p
           | Inr l' \<Rightarrow> Data_assign DataKeyFSys (AFileInfos files) l'))"

subsection \<open>Serializers\<close>

text \<open>
  \<^verbatim>\<open>type Serializer func(*Log) []byte\<close>: a serializer returns bytes, or panics; it
  holds the pointer, so the record as it leaves it is part of its result.
\<close>

type_synonym 'a Serializer = "'a Log_scheme \<Rightarrow> panic + (bytes \<times> 'a Log_scheme)"

text \<open>
  Go maps have no order of their own; \<^verbatim>\<open>encoding/json\<close> and \<^verbatim>\<open>fmt\<close> both visit a
  map in the order of its sorted keys. \<open>sorted_entries\<close> is the map as they see it.
\<close>

definition sorted_entries :: "(string \<times> any) list option \<Rightarrow> (string \<times> any) list option" where
  "sorted_entries d = map_option (sort_key fst) d"

text \<open>
  \<^verbatim>\<open>json.MarshalIndent(l, "", "\t")\<close> is the standard library's. It either returns an
  \<^verbatim>\<open>UnsupportedTypeError\<close> (its message is \<^verbatim>\<open>json: unsupported type: \<close> followed by
  the type) for the first value it cannot encode in the order it visits them; or the
  text of the record. The text itself (escaping, indentation, number and time formats)
  is the argument \<open>render\<close>, applied to the record with its map in sorted order: no
  property below depends on it.
\<close>

fun json_supported :: "any \<Rightarrow> bool" where
  "json_supported AFunc = False"
| "json_supported AChan = False"
| "json_supported v = True"

fun type_String :: "any \<Rightarrow> string" where
  "type_String (AString x) = ''string''"
| "type_String (AStrings x) = ''[]string''"
| "type_String (ATime x) = ''time.Time''"
| "type_String (AFileInfos x) = ''[]logs.FileInfo''"
| "type_String AFunc = ''func()''"
| "type_String AChan = ''chan int''"

definition json_MarshalIndent :: "('a Log_scheme \<Rightarrow> bytes) \<Rightarrow> 'a Log_scheme \<Rightarrow> error + bytes" where
  "json_MarshalIndent render l =
     (case find (\<lambda>kv. \<not> json_supported (snd kv))
             (case sorted_entries (Data l) of None \<Rightarrow> [] | Some m \<Rightarrow> m) of
        Some kv \<Rightarrow> Inl (Err (''json: unsupported type: '' @ type_String (snd kv)))
      | None \<Rightarrow> Inr (render (l\<lparr>Data := sorted_entries (Data l)\<rparr>)))"

text \<open>
  \<^verbatim>\<open>
  // Returns the JSON representation of a log.
  // This function will panic if the JSON marshalling of the log returns an error.
  func AsJSON(l *Log) []byte {
      b, err := json.MarshalIndent(l, "", "\t")
      if err != nil {
          panic(err)
      }
      return b
  }
  \<close>
\<close>

definition AsJSON :: "('a Log_scheme \<Rightarrow> bytes) \<Rightarrow> 'a Serializer" where
  "AsJSON render l =
     (case json_MarshalIndent render l of
        Inl err \<Rightarrow> Inl (PanicErr err)
      | Inr b \<Rightarrow> Inr (b, l))"

text \<open>
  \<^verbatim>\<open>
  func AsSingleLine(l *Log) []byte {
      return []byte(fmt.Sprintf("%q %#v", l.Message, l.Data))
  }
  \<close>
  The two verbs of \<^verbatim>\<open>fmt\<close> are the arguments \<open>fmt_q\<close> (\<^verbatim>\<open>%q\<close> of a string) and
  \<open>fmt_v\<close> (\<^verbatim>\<open>%#v\<close> of the map, which it visits in sorted order);
  \<^verbatim>\<open>fmt.Sprintf\<close> returns no error.
\<close>

definition AsSingleLine ::
  "(string \<Rightarrow> string) \<Rightarrow> ((string \<times> any) list option \<Rightarrow> string) \<Rightarrow> 'a Serializer" where
  "AsSingleLine fmt_q fmt_v l =
     Inr (fmt_q (Message l) @ '' '' @ fmt_v (sorted_entries (Data l)), l)"

subsection \<open>Levels and \<^verbatim>\<open>New\<close>\<close>

text \<open>
  \<^verbatim>\<open>
  type Level int
  const (
      LevelUnknown Level = iota
      LevelDebug
      LevelInfo
      LevelWarn
      LevelError
      LevelPanic
  )
  var LevelLabels = [...]string{
      LevelUnknown: "UNKNOWN",
      LevelDebug:   "DEBUG",
      LevelInfo:    "INFO",
      LevelWarn:    "WARN",
      LevelError:   "ERROR",
      LevelPanic:   "PANIC",
  }
  \<close>
  Indexing the array with a variable outside \<^verbatim>\<open>0 <= lvl < len(LevelLabels)\<close> is a
  run-time panic.
\<close>

definition LevelUnknown :: go_int where "LevelUnknown = 0"
definition LevelDebug :: go_int where "LevelDebug = 1"
definition LevelInfo :: go_int where "LevelInfo = 2"
definition LevelWarn :: go_int where "LevelWarn = 3"
definition LevelError :: go_int where "LevelError = 4"
definition LevelPanic :: go_int where "LevelPanic = 5"

definition LevelLabels :: "string list" where
  "LevelLabels = [''UNKNOWN'', ''DEBUG'', ''INFO'', ''WARN'', ''ERROR'', ''PANIC'']"

definition LevelLabels_index :: "go_int \<Rightarrow> panic + string" where
  "LevelLabels_index lvl =
     (if 0 \<le> sint lvl \<and> sint lvl < int (length LevelLabels)
      then Inr (LevelLabels ! nat (sint lvl))
      else Inl IndexOutOfRange)"

text \<open>
  \<^verbatim>\<open>func (lvl LogLevel) String() string { return levelLabels[lvl] }\<close> of \<^verbatim>\<open>level.go\<close>,
  whose \<^verbatim>\<open>levelLabels\<close> is the same array.
\<close>

definition LogLevel_String :: "go_int \<Rightarrow> panic + string" where
  "LogLevel_String lvl = LevelLabels_index lvl"

text \<open>
  \<^verbatim>\<open>
  func New(lvl Level, msg string, opts ...LogOption) *Log {
      l := &Log{
          CreatedAt: time.Now(),
          Level:     LevelLabels[lvl],
          Message:   msg,
          Data:      map[string]any{},
      }
      for _, opt := range opts {
          opt(l)
      }
      return l
  }
  \<close>
\<close>

definition New ::
  "Time \<Rightarrow> go_int \<Rightarrow> string \<Rightarrow> (unit LevelLog_ext) LogOption list \<Rightarrow> panic + LevelLog" where
  "New now lvl msg opts =
     (case LevelLabels_index lvl of
        Inl p \<Rightarrow> Inl p
      | Inr label \<Rightarrow>
          apply_options opts \<lparr>Message = msg, Data = Some [], CreatedAt = now, Level = label\<rparr>)"

subsection \<open>\<^verbatim>\<open>DefaultLogger\<close>\<close>

text \<open>
  \<^verbatim>\<open>
  type LoggerFunc func(*Log) error
  type DefaultLogger struct {
      Writers     []io.Writer
      Serializer  Serializer
      BaseOptions []LogOption
      LogPrefix   string
      LogSuffix   string
  }
  func (dl *DefaultLogger) LoggerFunc() (LoggerFunc, error) {
      w := newWriterWrapper(dl.Writers...)
      mu := &sync.Mutex{}
      return func(l *Log) error {
          mu.Lock()
          defer mu.Unlock()
          for _, opt := range dl.BaseOptions {
              opt(l)
          }
          b := bytes.Join([][]byte{
              []byte(dl.LogPrefix),
              dl.Serializer(l),
              []byte(dl.LogSuffix + "\n"),
          }, nil)
          _, err := w.Write(b)
          return err
      }, nil
  }
  \<close>
  A \<^verbatim>\<open>LoggerFunc\<close> acts on the record behind its pointer and on the writers' state; it
  returns the error, or panics.
\<close>

record ('a, 'w) DefaultLogger =
  Writers :: "'w Writer list"
  Serializer :: "'a Serializer"
  BaseOptions :: "'a LogOption list"
  LogPrefix :: string
  LogSuffix :: string

type_synonym ('a, 'w) LoggerFunc =
  "'a Log_scheme \<Rightarrow> 'w \<Rightarrow> panic + (error option \<times> 'a Log_scheme \<times> 'w)"

definition LoggerFunc_closure ::
  "'w Writer list \<Rightarrow> ('a, 'w) DefaultLogger \<Rightarrow> ('a, 'w) LoggerFunc" where
  "LoggerFunc_closure w dl l s =
     (case apply_options (BaseOptions dl) l of
        Inl p \<Rightarrow> Inl p
      | Inr l1 \<Rightarrow>
          (case Serializer dl l1 of
             Inl p \<Rightarrow> Inl p
           | Inr (ser, l2) \<Rightarrow>
               (case writerWrapper_Write w
                       (Join [LogPrefix dl, ser, LogSuffix dl @ [CHR 0x0A]] []) s of
                  ((n, err), s') \<Rightarrow> Inr (err, l2, s'))))"

definition LoggerFunc :: "('a, 'w) DefaultLogger \<Rightarrow> ('a, 'w) LoggerFunc \<times> error option" where
  "LoggerFunc dl = (LoggerFunc_closure (newWriterWrapper (Writers dl)) dl, None)"

subsection \<open>\<^verbatim>\<open>JSONLogger\<close>\<close>

text \<open>
  \<^verbatim>\<open>
  type JSONLogger struct {
      out   io.Writer
      tries int
      mu    sync.RWMutex
  }
  \<close>
\<close>

record 'w JSONLogger =
  out :: "'w Writer"
  tries :: go_int

text \<open>
  \<^verbatim>\<open>
  func NewJSONLogger(dirname string) (*JSONLogger, error) {
      err := os.Mkdir(dirname, os.ModePerm)
      if errors.Is(err, os.ErrExist) {
          err = nil
      }
      if err != nil {
          return nil, fmt.Errorf("failed to make directory: %w", err)
      }
      f, err := os.Create(fmt.Sprintf("%s/logs.%d.txt", dirname, time.Now().Unix()))
      if err != nil {
          return nil, fmt.Errorf("failed to make create log file: %w", err)
      }
      return &JSONLogger{out: f, tries: 5}, nil
  }
  \<close>
  The operating system is the arguments: \<open>os_Mkdir\<close> and \<open>os_Create\<close> act on the
  state \<open>'w\<close>, \<open>is_ErrExist err\<close> is \<^verbatim>\<open>errors.Is(err, os.ErrExist)\<close>, and \<open>unix\<close> is
  \<^verbatim>\<open>time.Now().Unix()\<close>. A file is the writer \<^verbatim>\<open>os.Create\<close> returns.
\<close>

definition NewJSONLogger ::
  "(string \<Rightarrow> 'w \<Rightarrow> error option \<times> 'w) \<Rightarrow> (error \<Rightarrow> bool) \<Rightarrow>
   (string \<Rightarrow> 'w \<Rightarrow> (error + 'w Writer) \<times> 'w) \<Rightarrow> go_int \<Rightarrow>
   string \<Rightarrow> 'w \<Rightarrow> (error + 'w JSONLogger) \<times> 'w" where
  "NewJSONLogger os_Mkdir is_ErrExist os_Create unix dirname s =
     (case os_Mkdir dirname s of
        (err, s1) \<Rightarrow>
          (case (case err of
                   None \<Rightarrow> None
                 | Some e \<Rightarrow> if is_ErrExist e then None else Some e) of
             Some e \<Rightarrow> (Inl (Err (''failed to make directory: '' @ Error e)), s1)
           | None \<Rightarrow>
               (case os_Create (dirname @ ''/logs.'' @ Itoa unix @ ''.txt'') s1 of
                  (Inl e, s2) \<Rightarrow> (Inl (Err (''failed to make create log file: '' @ Error e)), s2)
                | (Inr f, s2) \<Rightarrow> (Inr \<lparr>out = f, tries = 5\<rparr>, s2))))"

text \<open>
  \<^verbatim>\<open>
  func (jfl *JSONLogger) Log(l *Log) error {
      jfl.mu.Lock()
      defer jfl.mu.Unlock()
      for i := 0; i < jfl.tries; i++ {
          b, err := json.MarshalIndent(l, "", "\t")
          if err != nil {
              continue
          }
          _, err = jfl.out.Write(append(b, ',', '\n'))
          if err != nil {
              continue
          }
          break
      }
      return nil
  }
  \<close>
  The loop counter cannot overflow: it is below \<^verbatim>\<open>jfl.tries\<close> when it is incremented.
\<close>

lemma sint_succ:
  fixes i t :: go_int
  assumes "sint i < sint t"
  shows "sint (i + 1) = sint i + 1"
proof -
  have "sint t < 2 ^ 63"
    using sint_lt [of t] by simp
  moreover have "- (2 ^ 63) \<le> sint i"
    using sint_ge [of i] by simp
  ultimately have r: "- (2 ^ 63) \<le> sint i + 1" "sint i + 1 < 2 ^ 63"
    using assms by linarith+
  have "signed_take_bit (LENGTH(64) - 1) (sint i + 1) = sint i + 1"
    by (rule signed_take_bit_int_eq_self) (use r in simp_all)
  then have "sint (word_of_int (sint i + 1) :: go_int) = sint i + 1"
    by (simp only: sint_sbintrunc')
  moreover have "(word_of_int (sint i + 1) :: go_int) = i + 1"
    by simp
  ultimately show ?thesis
    by (simp only:)
qed

function JSONLogger_Log_loop ::
  "('a Log_scheme \<Rightarrow> bytes) \<Rightarrow> 'w JSONLogger \<Rightarrow> 'a Log_scheme \<Rightarrow> go_int \<Rightarrow> 'w \<Rightarrow> 'w" where
  "JSONLogger_Log_loop render jfl l i s =
     (if sint i < sint (tries jfl) then
        (case json_MarshalIndent render l of
           Inl err \<Rightarrow> JSONLogger_Log_loop render jfl l (i + 1) s
         | Inr b \<Rightarrow>
             (case out jfl (b @ [CHR '','', CHR 0x0A]) s of
                ((n, Some err), s') \<Rightarrow> JSONLogger_Log_loop render jfl l (i + 1) s'
              | ((n, None), s') \<Rightarrow> s'))
      else s)"
  by pat_completeness auto
termination
  by (relation "measure (\<lambda>(render, jfl, l, i, s). nat (sint (tries jfl) - sint i))")
    (auto simp: sint_succ)

definition JSONLogger_Log ::
  "('a Log_scheme \<Rightarrow> bytes) \<Rightarrow> 'w JSONLogger \<Rightarrow> 'a Log_scheme \<Rightarrow> 'w \<Rightarrow> error option \<times> 'w" where
  "JSONLogger_Log render jfl l s = (None, JSONLogger_Log_loop render jfl l 0 s)"

text \<open>
  What the logger is specified to do, written by recursion on the number of tries left:
  write \<open>b\<close> until a write succeeds, at most \<open>n\<close> times.
\<close>

fun retry_writes :: "nat \<Rightarrow> 'w Writer \<Rightarrow> bytes \<Rightarrow> 'w \<Rightarrow> 'w" where
  "retry_writes 0 w b s = s"
| "retry_writes (Suc n) w b s =
     (case w b s of
        ((k, None), s') \<Rightarrow> s'
      | ((k, Some err), s') \<Rightarrow> retry_writes n w b s')"

subsection \<open>Concrete inputs\<close>

text \<open>
  Stand-ins for what the embedding takes as arguments, used to run the code on concrete
  inputs: a writer that records every payload it is handed and returns a fixed outcome
  (its state is the list of payloads); renderings of a record and of a map that show the
  message and the keys; an operating system whose \<^verbatim>\<open>Mkdir\<close> succeeds and whose
  \<^verbatim>\<open>Create\<close> returns a given file; and a file system with a directory that cannot be
  read between two readable files.
\<close>

definition recordingWriter :: "go_int \<Rightarrow> error option \<Rightarrow> bytes list Writer" where
  "recordingWriter n err p s = ((n, err), s @ [p])"

definition fmt_v_stub :: "(string \<times> any) list option \<Rightarrow> string" where
  "fmt_v_stub d = Join (map fst (case d of None \<Rightarrow> [] | Some m \<Rightarrow> m)) '',''"

definition render_stub :: "'a Log_scheme \<Rightarrow> bytes" where
  "render_stub l = ''{'' @ Message l @ '':'' @ fmt_v_stub (Data l) @ ''}''"

definition mkdir_ok :: "string \<Rightarrow> 'w \<Rightarrow> error option \<times> 'w" where
  "mkdir_ok dirname s = (None, s)"

definition not_ErrExist :: "error \<Rightarrow> bool" where
  "not_ErrExist err = False"

definition create_returns :: "'w Writer \<Rightarrow> string \<Rightarrow> 'w \<Rightarrow> (error + 'w Writer) \<times> 'w" where
  "create_returns f name s = (Inr f, s)"

definition fsys_example :: FS where
  "fsys_example = Inr (DirNode ''.'' None
     [FileEntry ''a.txt'' (Inr 3),
      DirNode ''secret'' (Some (Err ''open secret: permission denied'')) [],
      FileEntry ''z.txt'' (Inr 7)])"

text \<open>An option of \<^verbatim>\<open>New\<close> that leaves the field \<^verbatim>\<open>Level\<close> as it finds it.\<close>

definition keeps_Level :: "(unit LevelLog_ext) LogOption \<Rightarrow> bool" where
  "keeps_Level opt = (\<forall>l l'. opt l = Inr l' \<longrightarrow> Level l' = Level l)"

text \<open>
  A caller's own option: \<^verbatim>\<open>Level\<close> is an exported field and a \<^verbatim>\<open>LogOption\<close> is any
  \<^verbatim>\<open>func(*Log)\<close>, so \<^verbatim>\<open>func(l *Log) { l.Level = lvl }\<close> is one.
\<close>

definition setLevel :: "string \<Rightarrow> (unit LevelLog_ext) LogOption" where
  "setLevel lvl l = Inr (l\<lparr>Level := lvl\<rparr>)"


section \<open>Properties\<close>

subsection \<open>The sink aggregator\<close>

lemma writerWrapper_loop_attempts:
  "writerWrapper_loop ww b n errs s =
     ((n + sum_list (map fst (fst (attempts ww b s))), errs @ failures (fst (attempts ww b s))),
      snd (attempts ww b s))"
proof (induction ww arbitrary: n errs s)
  case Nil
  then show ?case by (simp add: failures_def List.map_filter_simps)
next
  case (Cons w ww)
  obtain k err s' where w: "w b s = ((k, err), s')"
    by (metis prod.exhaust)
  obtain rs s'' where a: "attempts ww b s' = (rs, s'')"
    by (metis prod.exhaust)
  show ?case
    using Cons.IH [of "n + k" "case err of None \<Rightarrow> errs | Some e \<Rightarrow> errs @ [e]" s'] w a
    by (cases err) (simp_all add: failures_def List.map_filter_simps add.assoc)
qed

lemma writerWrapper_Write_attempts:
  "writerWrapper_Write ww b s =
     ((sum_list (map fst (fst (attempts ww b s))),
       if failures (fst (attempts ww b s)) \<noteq> []
       then Some (ErrWrapper (failures (fst (attempts ww b s)))) else None),
      snd (attempts ww b s))"
  by (simp add: writerWrapper_Write_def writerWrapper_loop_attempts)

lemma length_attempts: "length (fst (attempts ww b s)) = length ww"
proof (induction ww arbitrary: s)
  case Nil
  then show ?case by simp
next
  case (Cons w ww)
  obtain r s' where w: "w b s = (r, s')"
    by (metis prod.exhaust)
  obtain rs s'' where a: "attempts ww b s' = (rs, s'')"
    by (metis prod.exhaust)
  show ?case using Cons.IH [of s'] w a by simp
qed

text \<open>
  The outcome at position \<open>i\<close> is that of the \<open>i\<close>-th writer, called on \<open>b\<close> in the
  state left by the writers before it.
\<close>

lemma attempts_nth:
  "i < length ww \<Longrightarrow>
   fst (attempts ww b s) ! i = fst ((ww ! i) b (snd (attempts (take i ww) b s)))"
proof (induction ww arbitrary: i s)
  case Nil
  then show ?case by simp
next
  case (Cons w ww)
  obtain r s' where w: "w b s = (r, s')"
    by (metis prod.exhaust)
  obtain rs s'' where a: "attempts ww b s' = (rs, s'')"
    by (metis prod.exhaust)
  show ?case
  proof (cases i)
    case 0
    then show ?thesis using w a by simp
  next
    case (Suc j)
    obtain rs' t where a': "attempts (take j ww) b s' = (rs', t)"
      by (metis prod.exhaust)
    from Suc Cons.prems have "j < length ww" by simp
    from Cons.IH [OF this, of s'] show ?thesis using Suc w a a' by simp
  qed
qed

lemma failures_empty_iff: "failures rs = [] \<longleftrightarrow> (\<forall>r \<in> set rs. snd r = None)"
  by (induction rs) (auto simp: failures_def List.map_filter_simps split: option.splits)

lemma sint_sum_list:
  fixes xs :: "go_int list"
  assumes "- (2 ^ 63) \<le> sum_list (map sint xs)" "sum_list (map sint xs) < 2 ^ 63"
  shows "sint (sum_list xs) = sum_list (map sint xs)"
proof -
  have "sum_list xs = word_of_int (sum_list (map sint xs))"
    by (induction xs) simp_all
  then show ?thesis using assms
    by (simp add: sint_sbintrunc' signed_take_bit_int_eq_self)
qed

text \<open>The loop of \<^verbatim>\<open>errWrapper.Error\<close> from any index and accumulator.\<close>

lemma errWrapper_Error_Join:
  "errWrapper_Error ew i acc =
     acc @ (if ew = [] then [] else (if i > 0 then '', '' else []) @ Join (map Error ew) '', '')"
proof (induction ew arbitrary: i acc)
  case Nil
  then show ?case by simp
next
  case (Cons e ew)
  let ?acc = "(if i > 0 then acc @ '', '' else acc) @ Error e"
  have "errWrapper_Error (e # ew) i acc = errWrapper_Error ew (i + 1) ?acc"
    by simp
  also have "\<dots> = ?acc @ (if ew = [] then [] else '', '' @ Join (map Error ew) '', '')"
    by (subst Cons.IH) simp
  also have "\<dots> = acc @ (if i > 0 then '', '' else []) @ Join (map Error (e # ew)) '', ''"
    by (cases ew) simp_all
  finally show ?case by simp
qed

text \<open>
  Claim C1. For every list of sinks and every byte sequence \<open>b\<close>,
  \<^verbatim>\<open>writerWrapper.Write\<close> calls every sink once on \<open>b\<close>, in the order of the list (the
  outcomes are those of \<open>attempts\<close>, one per sink, and the final state is the one the
  last sink leaves); it returns an error exactly when some sink did; and the count it
  returns is the sum of the counts the sinks returned, failing sinks included. The sum
  is Go's \<^verbatim>\<open>int\<close> addition; it is the mathematical sum whenever that fits an \<^verbatim>\<open>int\<close>.
\<close>

theorem writerWrapper_Write_fan_out:
  "writerWrapper_Write ww b s = ((n, err), s') \<Longrightarrow>
     length (fst (attempts ww b s)) = length ww \<and>
     (\<forall>i < length ww.
        fst (attempts ww b s) ! i = fst ((ww ! i) b (snd (attempts (take i ww) b s)))) \<and>
     s' = snd (attempts ww b s) \<and>
     n = sum_list (map fst (fst (attempts ww b s))) \<and>
     (err \<noteq> None \<longleftrightarrow> (\<exists>x \<in> set (fst (attempts ww b s)). snd x \<noteq> None)) \<and>
     (- (2 ^ 63) \<le> sum_list (map (sint \<circ> fst) (fst (attempts ww b s))) \<and>
      sum_list (map (sint \<circ> fst) (fst (attempts ww b s))) < 2 ^ 63 \<longrightarrow>
      sint n = sum_list (map (sint \<circ> fst) (fst (attempts ww b s))))"
proof -
  assume r: "writerWrapper_Write ww b s = ((n, err), s')"
  let ?rs = "fst (attempts ww b s)"
  have n: "n = sum_list (map fst ?rs)"
    and e: "err = (if failures ?rs \<noteq> [] then Some (ErrWrapper (failures ?rs)) else None)"
    and s: "s' = snd (attempts ww b s)"
    using r by (simp_all add: writerWrapper_Write_attempts)
  have "err \<noteq> None \<longleftrightarrow> (\<exists>x \<in> set ?rs. snd x \<noteq> None)"
    by (simp add: e failures_empty_iff)
  moreover have "sint n = sum_list (map (sint \<circ> fst) ?rs)"
    if "- (2 ^ 63) \<le> sum_list (map (sint \<circ> fst) ?rs)"
      and "sum_list (map (sint \<circ> fst) ?rs) < 2 ^ 63"
    using sint_sum_list [of "map fst ?rs"] that by (simp add: n)
  ultimately show ?thesis
    using n s by (simp add: length_attempts attempts_nth)
qed

theorem writerWrapper_Write_fan_out_witness:
  "writerWrapper_Write [bufferWriter 0, failingWriter 2 ''disk full'', bufferWriter 1]
      ''hey'' [[], []]
     = ((8, Some (ErrWrapper [Err ''disk full''])), [''hey'', ''hey'']) \<and>
   fst (attempts [bufferWriter 0, failingWriter 2 ''disk full'', bufferWriter 1] ''hey'' [[], []])
     = [(3, None), (2, Some (Err ''disk full'')), (3, None)] \<and>
   sint (8 :: go_int) = 3 + 2 + 3"
proof -
  have w: "writerWrapper_Write [bufferWriter 0, failingWriter 2 ''disk full'', bufferWriter 1]
      ''hey'' [[], []]
     = ((8, Some (ErrWrapper [Err ''disk full''])), [''hey'', ''hey''])"
    by (simp add: writerWrapper_Write_def bufferWriter_def failingWriter_def)
  have a: "fst (attempts [bufferWriter 0, failingWriter 2 ''disk full'', bufferWriter 1]
      ''hey'' [[], []]) = [(3, None), (2, Some (Err ''disk full'')), (3, None)]"
    by (simp add: bufferWriter_def failingWriter_def)
  show ?thesis
    using writerWrapper_Write_fan_out [OF w] w a by simp
qed

text \<open>
  Claim C2. Whenever \<^verbatim>\<open>writerWrapper.Write\<close> returns an error, that error is the
  \<^verbatim>\<open>errWrapper\<close> of the errors of the failing sinks, in the order of the sinks, and its
  message is their messages joined with \<^verbatim>\<open>", "\<close>.
\<close>

theorem aggregated_error_message:
  "writerWrapper_Write ww b s = ((n, Some e), s') \<Longrightarrow>
     failures (fst (attempts ww b s)) \<noteq> [] \<and>
     e = ErrWrapper (failures (fst (attempts ww b s))) \<and>
     Error e = Join (map Error (failures (fst (attempts ww b s)))) '', ''"
  by (auto simp: writerWrapper_Write_attempts errWrapper_Error_Join split: if_splits)

theorem aggregated_error_message_witness:
  "writerWrapper_Write
      [failingWriter 0 ''disk full'', bufferWriter 0, failingWriter 1 ''closed pipe'']
      ''hey'' [[]]
     = ((4, Some (ErrWrapper [Err ''disk full'', Err ''closed pipe''])), [''hey'']) \<and>
   Error (ErrWrapper [Err ''disk full'', Err ''closed pipe'']) = ''disk full, closed pipe''"
proof -
  have w: "writerWrapper_Write
      [failingWriter 0 ''disk full'', bufferWriter 0, failingWriter 1 ''closed pipe'']
      ''hey'' [[]]
     = ((4, Some (ErrWrapper [Err ''disk full'', Err ''closed pipe''])), [''hey''])"
    by (simp add: writerWrapper_Write_def bufferWriter_def failingWriter_def)
  have "failures (fst (attempts
      [failingWriter 0 ''disk full'', bufferWriter 0, failingWriter 1 ''closed pipe'']
      ''hey'' [[]])) = [Err ''disk full'', Err ''closed pipe'']"
    by (simp add: bufferWriter_def failingWriter_def failures_def List.map_filter_simps)
  then show ?thesis
    using aggregated_error_message [OF w] w by simp
qed

subsection \<open>Options\<close>

lemma Data_assign_lookup:
  "Data_assign key v l = Inr l' \<Longrightarrow> Data_lookup l' key = Some v"
  by (auto simp: Data_assign_def Data_lookup_def update_Some_unfold split: option.splits)

lemma apply_options_append:
  "apply_options (opts @ opts') l =
     (case apply_options opts l of Inl p \<Rightarrow> Inl p | Inr l' \<Rightarrow> apply_options opts' l')"
  by (induction opts arbitrary: l) (auto split: sum.splits)

text \<open>Whatever the last of a list of options leaves under a key is there at the end.\<close>

lemma apply_options_snoc:
  assumes "apply_options (opts @ [opt]) l = Inr l'"
  shows "\<exists>l0. apply_options opts l = Inr l0 \<and> opt l0 = Inr l'"
  using assms by (auto simp: apply_options_append split: sum.splits)

lemma apply_options_ends_with:
  assumes "apply_options (opts1 @ o1 # opts2 @ [o2]) l = Inr l'"
    and "\<And>l0 l1. o2 l0 = Inr l1 \<Longrightarrow> Data_lookup l1 k = Some v"
  shows "Data_lookup l' k = Some v"
proof -
  have "apply_options ((opts1 @ o1 # opts2) @ [o2]) l = Inr l'"
    using assms(1) by simp
  then obtain l0 where "o2 l0 = Inr l'"
    using apply_options_snoc by blast
  then show ?thesis
    by (rule assms(2))
qed

lemma WithData_lookup: "WithData key v l = Inr l' \<Longrightarrow> Data_lookup l' key = Some v"
  by (simp add: WithData_def Data_assign_lookup)

lemma WithLevel_lookup:
  "WithLevel lvl l = Inr l' \<Longrightarrow> Data_lookup l' DataKeyLevel = Some (AString lvl)"
  by (simp add: WithLevel_def Data_assign_lookup)

text \<open>
  Whatever the walk returns, the last statement of the file-system option stores the
  list of files: the option never leaves a string under its key.
\<close>

lemma WithFS_final_value:
  "WithFS key fsys l = Inr l' \<Longrightarrow> \<exists>files. Data_lookup l' key = Some (AFileInfos files)"
  by (auto simp: WithFS_def split: sum.splits prod.splits option.splits dest: Data_assign_lookup)

lemma WithFSys_final_value:
  "WithFSys fsys l = Inr l' \<Longrightarrow> \<exists>files. Data_lookup l' DataKeyFSys = Some (AFileInfos files)"
  by (auto simp: WithFSys_def split: sum.splits prod.splits option.splits dest: Data_assign_lookup)

text \<open>
  Claim C3. The claim is that after an enumeration error the key holds the error
  message and the partial list is gone. The code assigns the message and then,
  unconditionally, the list: on the file system \<open>fsys_example\<close>, whose walk fails at the
  unreadable directory after collecting one file, both options leave the list of that
  one file under the key, and the message is lost.
\<close>

theorem WithFS_error_keeps_file_list:
  "WalkDir fsys_example ''.'' WithFS_visit [] =
     Inr (Some (Err ''open secret: permission denied''), [\<lparr>Path = ''a.txt'', Size = 3\<rparr>]) \<and>
   WithFS ''fs'' fsys_example \<lparr>Message = ''m'', Data = Some []\<rparr> =
     Inr \<lparr>Message = ''m'', Data = Some [(''fs'', AFileInfos [\<lparr>Path = ''a.txt'', Size = 3\<rparr>])]\<rparr> \<and>
   WithFSys fsys_example \<lparr>Message = ''m'', Data = Some []\<rparr> =
     Inr \<lparr>Message = ''m'',
          Data = Some [(DataKeyFSys, AFileInfos [\<lparr>Path = ''a.txt'', Size = 3\<rparr>])]\<rparr>"
  by (simp add: WithFS_def WithFSys_def WalkDir_def fsys_example_def path_Join_def Data_assign_def)

text \<open>
  Claim C6. Options are applied in order and the later one wins: of two options of a list
  that set the same key, the second being the last of the list, the value of the second
  is the one found under the key at the end, whatever options come before, between and
  whatever the first one wrote; for two \<^verbatim>\<open>WithData\<close>, and for \<^verbatim>\<open>WithLevel\<close> against
  \<^verbatim>\<open>WithData\<close> on the key \<^verbatim>\<open>DataKeyLevel\<close> in either order. \<^verbatim>\<open>NewLog\<close> with two
  such options in one order or the other returns two different records: options do not
  commute.
\<close>

theorem options_last_write_wins:
  "(apply_options (opts1 @ WithData key v1 # opts2 @ [WithData key v2]) l = Inr l' \<longrightarrow>
      Data_lookup l' key = Some v2) \<and>
   (apply_options (opts1 @ WithData DataKeyLevel v1 # opts2 @ [WithLevel lvl]) l = Inr l' \<longrightarrow>
      Data_lookup l' DataKeyLevel = Some (AString lvl)) \<and>
   (apply_options (opts1 @ WithLevel lvl # opts2 @ [WithData DataKeyLevel v2]) l = Inr l' \<longrightarrow>
      Data_lookup l' DataKeyLevel = Some v2) \<and>
   NewLog msg [WithData key v1, WithData key v2] =
     Inr \<lparr>Message = msg, Data = Some [(key, v2)]\<rparr> \<and>
   NewLog msg [WithData key v2, WithData key v1] =
     Inr \<lparr>Message = msg, Data = Some [(key, v1)]\<rparr>"
proof (intro conjI impI)
  assume "apply_options (opts1 @ WithData key v1 # opts2 @ [WithData key v2]) l = Inr l'"
  then show "Data_lookup l' key = Some v2"
    by (rule apply_options_ends_with) (rule WithData_lookup)
next
  assume "apply_options (opts1 @ WithData DataKeyLevel v1 # opts2 @ [WithLevel lvl]) l = Inr l'"
  then show "Data_lookup l' DataKeyLevel = Some (AString lvl)"
    by (rule apply_options_ends_with) (rule WithLevel_lookup)
next
  assume "apply_options (opts1 @ WithLevel lvl # opts2 @ [WithData DataKeyLevel v2]) l = Inr l'"
  then show "Data_lookup l' DataKeyLevel = Some v2"
    by (rule apply_options_ends_with) (rule WithData_lookup)
next
  show "NewLog msg [WithData key v1, WithData key v2] =
      Inr \<lparr>Message = msg, Data = Some [(key, v2)]\<rparr>"
    by (simp add: NewLog_def WithData_def Data_assign_def)
next
  show "NewLog msg [WithData key v2, WithData key v1] =
      Inr \<lparr>Message = msg, Data = Some [(key, v1)]\<rparr>"
    by (simp add: NewLog_def WithData_def Data_assign_def)
qed

theorem options_last_write_wins_witness:
  "apply_options
      ([WithTimestamp (Time 7)] @ WithData DataKeyLevel (AString ''DEBUG'') #
       [WithData ''k'' (AString ''v'')] @ [WithLevel ''INFO''])
      \<lparr>Message = ''m'', Data = Some []\<rparr>
     = Inr \<lparr>Message = ''m'',
            Data = Some [(''__created_at'', ATime (Time 7)), (''__level'', AString ''INFO''),
                         (''k'', AString ''v'')]\<rparr> \<and>
   Data_lookup
      \<lparr>Message = ''m'',
       Data = Some [(''__created_at'', ATime (Time 7)), (''__level'', AString ''INFO''),
                    (''k'', AString ''v'')]\<rparr>
      DataKeyLevel = Some (AString ''INFO'')"
proof -
  let ?l' = "\<lparr>Message = ''m'',
      Data = Some [(''__created_at'', ATime (Time 7)), (''__level'', AString ''INFO''),
                   (''k'', AString ''v'')]\<rparr>"
  have e: "apply_options
      ([WithTimestamp (Time 7)] @ WithData DataKeyLevel (AString ''DEBUG'') #
       [WithData ''k'' (AString ''v'')] @ [WithLevel ''INFO''])
      \<lparr>Message = ''m'', Data = Some []\<rparr> = Inr ?l'"
    by (simp add: WithTimestamp_def WithData_def WithLevel_def Data_assign_def
        DataKeyTimestamp_def DataKeyLevel_def dataKeyPrefix_def)
  show ?thesis
    using options_last_write_wins [where ?opts1.0 = "[WithTimestamp (Time 7)]"
        and ?opts2.0 = "[WithData ''k'' (AString ''v'')]"
        and ?v1.0 = "AString ''DEBUG''" and lvl = "''INFO''"
        and l = "\<lparr>Message = ''m'', Data = Some []\<rparr>" and l' = ?l'] e
    by simp
qed

subsection \<open>Serializers\<close>

lemma json_MarshalIndent_unsupported:
  assumes "Data l = Some m" "(k, v) \<in> set m" "\<not> json_supported v"
  shows "\<exists>e. json_MarshalIndent render l = Inl e"
proof -
  have "(k, v) \<in> set (sort_key fst m)"
    using assms(2) by simp
  then have "find (\<lambda>kv. \<not> json_supported (snd kv)) (sort_key fst m) \<noteq> None"
    using assms(3) by (auto simp: find_None_iff simp del: set_sort)
  then show ?thesis
    using assms(1) by (auto simp: json_MarshalIndent_def sorted_entries_def split: option.splits)
qed

text \<open>
  Two association lists with one entry per key that are the same map have the same
  entries in sorted order.
\<close>

lemma sorted_entries_map_of:
  assumes "distinct (map fst m1)" "distinct (map fst m2)" "map_of m1 = map_of m2"
  shows "sorted_entries (Some m1) = sorted_entries (Some m2)"
proof -
  have s: "set m1 = set m2"
    using assms by (simp add: map_of_inject_set)
  have "distinct m1" "distinct m2"
    using assms(1,2) by (simp_all add: distinct_map)
  then have "mset m1 = mset m2"
    using s by (simp add: set_eq_iff_mset_eq_distinct)
  moreover have "inj_on fst (set m1)"
    using assms(1) by (simp add: distinct_map)
  ultimately have "sort_key fst m1 = sort_key fst m2"
    by (rule sort_key_eq_sort_key)
  then show ?thesis
    by (simp add: sorted_entries_def)
qed

text \<open>
  Claim C5, as amended. The claim is that a record with a value the serializer cannot
  encode makes the log call return an error without a panic. \<^verbatim>\<open>AsJSON\<close> panics with
  the encoder's error, as its comment says, and the \<^verbatim>\<open>LoggerFunc\<close> of a
  \<^verbatim>\<open>DefaultLogger\<close> whose serializer is \<^verbatim>\<open>AsJSON\<close> does not recover: for every record
  with a value \<^verbatim>\<open>encoding/json\<close> does not encode, \<^verbatim>\<open>AsJSON\<close> panics with the error
  of \<^verbatim>\<open>json.MarshalIndent\<close>, and so does the logger function on every record that its
  base options turn into that one; no error is returned.
\<close>

theorem AsJSON_unencodable_panics:
  assumes "Data l = Some m" "(k, v) \<in> set m" "\<not> json_supported v"
  shows "\<exists>e. json_MarshalIndent render l = Inl e \<and>
             AsJSON render l = Inl (PanicErr e) \<and>
             (\<forall>dl l0 s. Serializer dl = AsJSON render \<and> apply_options (BaseOptions dl) l0 = Inr l
                 \<longrightarrow> fst (LoggerFunc dl) l0 s = Inl (PanicErr e))"
proof -
  obtain e where e: "json_MarshalIndent render l = Inl e"
    using json_MarshalIndent_unsupported [OF assms] by blast
  then have "AsJSON render l = Inl (PanicErr e)"
    by (simp add: AsJSON_def)
  then show ?thesis
    using e by (auto simp: LoggerFunc_def LoggerFunc_closure_def)
qed

theorem AsJSON_unencodable_panics_witness:
  "AsJSON render_stub \<lparr>Message = ''m'', Data = Some [(''a'', AString ''x''), (''k'', AChan)]\<rparr> =
     Inl (PanicErr (Err ''json: unsupported type: chan int''))"
proof -
  let ?l = "\<lparr>Message = ''m'', Data = Some [(''a'', AString ''x''), (''k'', AChan)]\<rparr>"
  have m: "json_MarshalIndent render_stub ?l = Inl (Err ''json: unsupported type: chan int'')"
    by (simp add: json_MarshalIndent_def sorted_entries_def)
  have "Data ?l = Some [(''a'', AString ''x''), (''k'', AChan)]"
    and "(''k'', AChan) \<in> set [(''a'', AString ''x''), (''k'', AChan)]"
    and "\<not> json_supported AChan"
    by simp_all
  from AsJSON_unencodable_panics [OF this, of render_stub] m show ?thesis
    by auto
qed

text \<open>
  The claim as stated fails on the record \<^verbatim>\<open>NewLog("m", WithData("k", func() {}))\<close>:
  \<^verbatim>\<open>AsJSON\<close> panics, and so does the logger function of a logger with one buffer.
\<close>

theorem AsJSON_returns_error_counterexample:
  "NewLog ''m'' [WithData ''k'' AFunc] = Inr \<lparr>Message = ''m'', Data = Some [(''k'', AFunc)]\<rparr> \<and>
   AsJSON render_stub \<lparr>Message = ''m'', Data = Some [(''k'', AFunc)]\<rparr> =
     Inl (PanicErr (Err ''json: unsupported type: func()'')) \<and>
   fst (LoggerFunc \<lparr>Writers = [bufferWriter 0], Serializer = AsJSON render_stub,
                    BaseOptions = [], LogPrefix = [], LogSuffix = []\<rparr>)
     \<lparr>Message = ''m'', Data = Some [(''k'', AFunc)]\<rparr> [[]] =
     Inl (PanicErr (Err ''json: unsupported type: func()''))"
  by (simp add: AsJSON_def json_MarshalIndent_def sorted_entries_def LoggerFunc_def
      LoggerFunc_closure_def NewLog_def WithData_def Data_assign_def)

text \<open>
  Claim C7. Each serializer leaves the record as it found it, and a second call on the
  record the first call left returns the same bytes; \<^verbatim>\<open>AsSingleLine\<close> always returns.
  The output is a function of the record as a Go value: two representations of the same
  map (one entry per key, in any order) give the same bytes, or the same panic.
\<close>

theorem serializers_pure:
  "(AsJSON render l = Inr (b, l') \<longrightarrow> l' = l \<and> AsJSON render l' = Inr (b, l')) \<and>
   (\<exists>b. AsSingleLine fmt_q fmt_v l = Inr (b, l)) \<and>
   (distinct (map fst m1) \<and> distinct (map fst m2) \<and> map_of m1 = map_of m2 \<longrightarrow>
      map_sum id fst (AsJSON render (l\<lparr>Data := Some m1\<rparr>)) =
        map_sum id fst (AsJSON render (l\<lparr>Data := Some m2\<rparr>)) \<and>
      map_sum id fst (AsSingleLine fmt_q fmt_v (l\<lparr>Data := Some m1\<rparr>)) =
        map_sum id fst (AsSingleLine fmt_q fmt_v (l\<lparr>Data := Some m2\<rparr>)))"
proof (intro conjI impI)
  assume "AsJSON render l = Inr (b, l')"
  then show "l' = l" and "AsJSON render l' = Inr (b, l')"
    by (auto simp: AsJSON_def split: sum.splits)
next
  show "\<exists>b. AsSingleLine fmt_q fmt_v l = Inr (b, l)"
    by (simp add: AsSingleLine_def)
next
  assume "distinct (map fst m1) \<and> distinct (map fst m2) \<and> map_of m1 = map_of m2"
  then have e: "sorted_entries (Some m1) = sorted_entries (Some m2)"
    by (simp add: sorted_entries_map_of)
  then have "json_MarshalIndent render (l\<lparr>Data := Some m1\<rparr>) =
      json_MarshalIndent render (l\<lparr>Data := Some m2\<rparr>)"
    by (simp add: json_MarshalIndent_def split: option.splits)
  then show "map_sum id fst (AsJSON render (l\<lparr>Data := Some m1\<rparr>)) =
      map_sum id fst (AsJSON render (l\<lparr>Data := Some m2\<rparr>))"
    by (simp add: AsJSON_def split: sum.splits)
  show "map_sum id fst (AsSingleLine fmt_q fmt_v (l\<lparr>Data := Some m1\<rparr>)) =
      map_sum id fst (AsSingleLine fmt_q fmt_v (l\<lparr>Data := Some m2\<rparr>))"
    using e by (simp add: AsSingleLine_def)
qed

theorem serializers_pure_witness:
  "AsJSON render_stub \<lparr>Message = ''m'', Data = Some [(''b'', AString ''2''), (''a'', AString ''1'')]\<rparr> =
     Inr (''{m:a,b}'',
          \<lparr>Message = ''m'', Data = Some [(''b'', AString ''2''), (''a'', AString ''1'')]\<rparr>) \<and>
   AsJSON render_stub \<lparr>Message = ''m'', Data = Some [(''a'', AString ''1''), (''b'', AString ''2'')]\<rparr> =
     Inr (''{m:a,b}'',
          \<lparr>Message = ''m'', Data = Some [(''a'', AString ''1''), (''b'', AString ''2'')]\<rparr>) \<and>
   map_of [(''b'', AString ''2''), (''a'', AString ''1'')] =
     map_of [(''a'', AString ''1''), (''b'', AString ''2'')]"
proof -
  let ?m1 = "[(''b'', AString ''2''), (''a'', AString ''1'')]"
  let ?m2 = "[(''a'', AString ''1''), (''b'', AString ''2'')]"
  let ?l = "\<lparr>Message = ''m'', Data = Some ?m1\<rparr>"
  have a: "AsJSON render_stub ?l = Inr (''{m:a,b}'', ?l)"
    by (simp add: AsJSON_def json_MarshalIndent_def sorted_entries_def render_stub_def
        fmt_v_stub_def)
  have d: "distinct (map fst ?m1) \<and> distinct (map fst ?m2) \<and> map_of ?m1 = map_of ?m2"
    by (simp add: map_of_inject_set) auto
  have "?l\<lparr>Data := Some ?m1\<rparr> = ?l"
    and "?l\<lparr>Data := Some ?m2\<rparr> = \<lparr>Message = ''m'', Data = Some ?m2\<rparr>"
    by simp_all
  then show ?thesis
    using serializers_pure [of render_stub ?l "''{m:a,b}''" ?l id fmt_v_stub ?m1 ?m2] a d
    by (auto simp: AsJSON_def split: sum.splits)
qed

subsection \<open>Loggers\<close>

text \<open>
  The loop of \<^verbatim>\<open>JSONLogger.Log\<close> from any index: when the record cannot be
  marshalled, every remaining iteration fails before the write and the state is as it
  was; otherwise the loop writes the same bytes until a write succeeds, as many times as
  there are iterations left.
\<close>

lemma JSONLogger_Log_loop_retry:
  "JSONLogger_Log_loop render jfl l i s =
     (case json_MarshalIndent render l of
        Inl err \<Rightarrow> s
      | Inr b \<Rightarrow>
          retry_writes (nat (sint (tries jfl) - sint i)) (out jfl) (b @ [CHR '','', CHR 0x0A]) s)"
proof (induction render jfl l i s rule: JSONLogger_Log_loop.induct)
  case (1 render jfl l i s)
  show ?case
  proof (cases "sint i < sint (tries jfl)")
    case False
    then show ?thesis
      by (simp split: sum.splits)
  next
    case True
    then have n: "nat (sint (tries jfl) - sint i) = Suc (nat (sint (tries jfl) - sint (i + 1)))"
      by (simp add: sint_succ [OF True])
    show ?thesis
    proof (cases "json_MarshalIndent render l")
      case (Inl err)
      then show ?thesis
        using True "1.IH"(1) [OF True Inl]
        by (subst JSONLogger_Log_loop.simps) simp
    next
      case (Inr b)
      obtain k e s' where w: "out jfl (b @ [CHR '','', CHR 0x0A]) s = ((k, e), s')"
        by (metis prod.exhaust)
      show ?thesis
      proof (cases e)
        case None
        then show ?thesis
          using True Inr w n
          by (subst JSONLogger_Log_loop.simps) (simp del: JSONLogger_Log_loop.simps)
      next
        case (Some err)
        have "JSONLogger_Log_loop render jfl l (i + 1) s' =
          retry_writes (nat (sint (tries jfl) - sint (i + 1))) (out jfl)
            (b @ [CHR '','', CHR 0x0A]) s'"
          using "1.IH"(2) [OF True Inr w [symmetric] refl Some] Inr by simp
        then show ?thesis
          using True Inr w n Some
          by (subst JSONLogger_Log_loop.simps) (simp del: JSONLogger_Log_loop.simps)
      qed
    qed
  qed
qed

text \<open>A writer that fails on every call has been called once per try.\<close>

lemma retry_writes_all_fail:
  assumes "\<And>t. snd (fst (w b t)) \<noteq> None"
  shows "retry_writes n w b s = ((\<lambda>t. snd (w b t)) ^^ n) s"
proof (induction n arbitrary: s)
  case 0
  then show ?case by simp
next
  case (Suc n)
  obtain k e s' where w: "w b s = ((k, e), s')"
    by (metis prod.exhaust)
  with assms [of s] obtain err where "e = Some err"
    by auto
  then show ?case
    using w Suc.IH [of s'] by (simp add: funpow_Suc_right del: funpow.simps)
qed

text \<open>
  Claim C4. For every record, \<^verbatim>\<open>JSONLogger.Log\<close> returns \<^verbatim>\<open>nil\<close>, whatever happened.
  It leaves the state untouched when the record cannot be marshalled, and otherwise
  writes the marshalled record followed by a comma and a newline until a write
  succeeds, at most \<^verbatim>\<open>tries\<close> times: when every write fails it has written
  \<^verbatim>\<open>tries\<close> times, and still returns \<^verbatim>\<open>nil\<close>. \<^verbatim>\<open>tries\<close> is 5 in every logger that
  \<^verbatim>\<open>NewJSONLogger\<close> returns.
\<close>

theorem JSONLogger_Log_returns_nil:
  "fst (JSONLogger_Log render jfl l s) = None \<and>
   snd (JSONLogger_Log render jfl l s) =
     (case json_MarshalIndent render l of
        Inl err \<Rightarrow> s
      | Inr b \<Rightarrow> retry_writes (nat (sint (tries jfl))) (out jfl) (b @ [CHR '','', CHR 0x0A]) s) \<and>
   (json_MarshalIndent render l = Inr b \<and>
    (\<forall>t. snd (fst (out jfl (b @ [CHR '','', CHR 0x0A]) t)) \<noteq> None) \<longrightarrow>
      snd (JSONLogger_Log render jfl l s) =
        ((\<lambda>t. snd (out jfl (b @ [CHR '','', CHR 0x0A]) t)) ^^ nat (sint (tries jfl))) s) \<and>
   (fst (NewJSONLogger os_Mkdir is_ErrExist os_Create unix dirname s0) = Inr jfl \<longrightarrow>
      tries jfl = 5)"
proof -
  have t: "tries jfl = 5"
    if "fst (NewJSONLogger os_Mkdir is_ErrExist os_Create unix dirname s0) = Inr jfl"
    using that
    by (auto simp: NewJSONLogger_def split: prod.splits option.splits sum.splits if_splits)
  have z: "nat (sint (tries jfl) - sint (0 :: go_int)) = nat (sint (tries jfl))"
    by simp
  have r: "snd (JSONLogger_Log render jfl l s) =
     (case json_MarshalIndent render l of
        Inl err \<Rightarrow> s
      | Inr b \<Rightarrow> retry_writes (nat (sint (tries jfl))) (out jfl) (b @ [CHR '','', CHR 0x0A]) s)"
    by (simp only: JSONLogger_Log_def JSONLogger_Log_loop_retry snd_conv z)
  have "snd (JSONLogger_Log render jfl l s) =
      ((\<lambda>t. snd (out jfl (b @ [CHR '','', CHR 0x0A]) t)) ^^ nat (sint (tries jfl))) s"
    if "json_MarshalIndent render l = Inr b"
      and "\<forall>t. snd (fst (out jfl (b @ [CHR '','', CHR 0x0A]) t)) \<noteq> None"
    using that retry_writes_all_fail [of "out jfl" "b @ [CHR '','', CHR 0x0A]"]
    by (simp add: r)
  moreover have "fst (JSONLogger_Log render jfl l s) = None"
    by (simp add: JSONLogger_Log_def del: JSONLogger_Log_loop.simps)
  ultimately show ?thesis
    using t r by blast
qed

theorem JSONLogger_Log_returns_nil_witness:
  "fst (NewJSONLogger mkdir_ok not_ErrExist
          (create_returns (recordingWriter 0 (Some (Err ''disk full''))))
          1730000000 ''logs'' []) =
     Inr \<lparr>out = recordingWriter 0 (Some (Err ''disk full'')), tries = 5\<rparr> \<and>
   JSONLogger_Log render_stub \<lparr>out = recordingWriter 0 (Some (Err ''disk full'')), tries = 5\<rparr>
     \<lparr>Message = ''m'', Data = Some [], CreatedAt = Time 0, Level = ''INFO''\<rparr> [] =
     (None, [''{m:},'' @ [CHR 0x0A], ''{m:},'' @ [CHR 0x0A], ''{m:},'' @ [CHR 0x0A],
             ''{m:},'' @ [CHR 0x0A], ''{m:},'' @ [CHR 0x0A]])"
proof -
  let ?jfl = "\<lparr>out = recordingWriter 0 (Some (Err ''disk full'')), tries = 5\<rparr>"
  let ?l = "\<lparr>Message = ''m'', Data = Some [], CreatedAt = Time 0, Level = ''INFO''\<rparr>"
  have n: "fst (NewJSONLogger mkdir_ok not_ErrExist
          (create_returns (recordingWriter 0 (Some (Err ''disk full''))))
          1730000000 ''logs'' ([] :: bytes list)) = Inr ?jfl"
    by (simp add: NewJSONLogger_def mkdir_ok_def not_ErrExist_def create_returns_def)
  have m: "json_MarshalIndent render_stub ?l = Inr ''{m:}''"
    by (simp add: json_MarshalIndent_def sorted_entries_def render_stub_def fmt_v_stub_def)
  have r: "retry_writes (nat 5) (recordingWriter 0 (Some (Err ''disk full''))) b [] =
      [b, b, b, b, b]" for b
    by (simp add: recordingWriter_def eval_nat_numeral)
  have f: "\<forall>t. snd (fst (out ?jfl (''{m:}'' @ [CHR '','', CHR 0x0A]) t)) \<noteq> None"
    by (simp add: recordingWriter_def)
  have "JSONLogger_Log render_stub ?jfl ?l [] =
      (fst (JSONLogger_Log render_stub ?jfl ?l []), snd (JSONLogger_Log render_stub ?jfl ?l []))"
    by simp
  also have "\<dots> = (None, [''{m:},'' @ [CHR 0x0A], ''{m:},'' @ [CHR 0x0A], ''{m:},'' @ [CHR 0x0A],
             ''{m:},'' @ [CHR 0x0A], ''{m:},'' @ [CHR 0x0A]])"
    using JSONLogger_Log_returns_nil [where render = render_stub and jfl = ?jfl and l = ?l
        and s = "[]" and b = "''{m:}''" and os_Mkdir = mkdir_ok and is_ErrExist = not_ErrExist
        and os_Create = "create_returns (recordingWriter 0 (Some (Err ''disk full'')))"
        and unix = 1730000000 and dirname = "''logs''" and ?s0.0 = "[]"]
      m r f
    by simp
  finally show ?thesis
    using n by simp
qed

text \<open>
  Claim C8. Whenever the base options and the serializer return, the logger function
  hands the sink aggregator the prefix, then the serializer's bytes for the record as
  the base options left it, then the suffix, then one newline: its error is the
  aggregator's on those bytes, and every sink is called on exactly those bytes.
\<close>

theorem LoggerFunc_frames_record:
  assumes "apply_options (BaseOptions dl) l = Inr l1"
    and "Serializer dl l1 = Inr (ser, l2)"
  shows "fst (LoggerFunc dl) l s =
           Inr (snd (fst (writerWrapper_Write (Writers dl)
                  (LogPrefix dl @ ser @ LogSuffix dl @ [CHR 0x0A]) s)),
                l2,
                snd (attempts (Writers dl) (LogPrefix dl @ ser @ LogSuffix dl @ [CHR 0x0A]) s))"
  using assms
  by (auto simp: LoggerFunc_def LoggerFunc_closure_def newWriterWrapper_def
      writerWrapper_Write_attempts split: prod.splits)

theorem LoggerFunc_frames_record_witness:
  "fst (LoggerFunc \<lparr>Writers = [bufferWriter 0, failingWriter 0 ''closed pipe''],
                    Serializer = AsJSON render_stub, BaseOptions = [WithLevel ''INFO''],
                    LogPrefix = ''[app] '', LogSuffix = '',''\<rparr>)
     \<lparr>Message = ''hey'', Data = Some []\<rparr> [[]] =
   Inr (Some (ErrWrapper [Err ''closed pipe'']),
        \<lparr>Message = ''hey'', Data = Some [(''__level'', AString ''INFO'')]\<rparr>,
        [''[app] {hey:__level},'' @ [CHR 0x0A]])"
proof -
  let ?dl = "\<lparr>Writers = [bufferWriter 0, failingWriter 0 ''closed pipe''],
              Serializer = AsJSON render_stub, BaseOptions = [WithLevel ''INFO''],
              LogPrefix = ''[app] '', LogSuffix = '',''\<rparr>"
  let ?l = "\<lparr>Message = ''hey'', Data = Some []\<rparr>"
  let ?l1 = "\<lparr>Message = ''hey'', Data = Some [(''__level'', AString ''INFO'')]\<rparr>"
  have o: "apply_options (BaseOptions ?dl) ?l = Inr ?l1"
    by (simp add: WithLevel_def Data_assign_def DataKeyLevel_def dataKeyPrefix_def)
  have j: "Serializer ?dl ?l1 = Inr (''{hey:__level}'', ?l1)"
    by (simp add: AsJSON_def json_MarshalIndent_def sorted_entries_def render_stub_def
        fmt_v_stub_def)
  show ?thesis
    using LoggerFunc_frames_record [OF o j, of "[[]]"]
    by (simp add: writerWrapper_Write_def bufferWriter_def failingWriter_def)
qed

text \<open>
  Claim C10. \<^verbatim>\<open>DefaultLogger.LoggerFunc\<close> returns a \<^verbatim>\<open>nil\<close> error for every
  configuration.
\<close>

theorem LoggerFunc_error_nil: "snd (LoggerFunc dl) = None"
  by (simp add: LoggerFunc_def)

subsection \<open>Levels\<close>

lemma keeps_Level_Data_assign: "keeps_Level (Data_assign key v)"
  by (auto simp: keeps_Level_def Data_assign_def split: option.splits)

lemma keeps_Level_WithData: "keeps_Level (WithData key v)"
  using keeps_Level_Data_assign [of key v]
  by (simp add: keeps_Level_def WithData_def)

lemma keeps_Level_WithSourceCodeLocation: "keeps_Level (WithSourceCodeLocation Caller key offset)"
  using keeps_Level_Data_assign
  by (auto simp: keeps_Level_def WithSourceCodeLocation_def split: option.splits)

lemma keeps_Level_WithFS: "keeps_Level (WithFS key fsys)"
proof -
  have "Level l' = Level l" if "Data_assign k v l = Inr l'" for k v and l l' :: LevelLog
    using that keeps_Level_Data_assign [of k v] by (simp add: keeps_Level_def)
  then show ?thesis
    unfolding keeps_Level_def WithFS_def
    by (fastforce split: sum.splits prod.splits option.splits)
qed

lemma apply_options_keeps_Level:
  "list_all keeps_Level opts \<Longrightarrow> apply_options opts l = Inr l' \<Longrightarrow> Level l' = Level l"
proof (induction opts arbitrary: l)
  case Nil
  then show ?case by simp
next
  case (Cons opt opts)
  from Cons.prems(2) obtain l1 where o: "opt l = Inr l1" and r: "apply_options opts l1 = Inr l'"
    by (auto split: sum.splits)
  from Cons.prems(1) have "keeps_Level opt" and "list_all keeps_Level opts"
    by simp_all
  then have "Level l1 = Level l" and "Level l' = Level l1"
    using o Cons.IH [OF _ r] unfolding keeps_Level_def by blast+
  then show ?case by simp
qed

text \<open>
  Claim C9, as amended. The claim is that for every level within \<^verbatim>\<open>LevelUnknown\<close> ..
  \<^verbatim>\<open>LevelPanic\<close> the record \<^verbatim>\<open>New\<close> returns has the label of the level. \<^verbatim>\<open>New\<close>
  stores the label and then applies the options, which may assign the field, so this
  holds of the record before the options and of the result only when the options leave
  \<^verbatim>\<open>Level\<close> alone. For a level within 0 to 5, \<^verbatim>\<open>New\<close> without options returns the
  record whose \<^verbatim>\<open>Level\<close> is the label of the level, and with options that leave
  \<^verbatim>\<open>Level\<close> alone (as the package's own do) the record it returns has that label; for
  a level outside the range the index is out of range and \<^verbatim>\<open>New\<close> panics, whatever the
  options, as \<^verbatim>\<open>LogLevel.String\<close> does. The six labels are the ones declared.
\<close>

theorem New_level_label:
  "(0 \<le> sint lvl \<and> sint lvl \<le> 5 \<longrightarrow>
      New now lvl msg [] =
        Inr \<lparr>Message = msg, Data = Some [], CreatedAt = now,
             Level = LevelLabels ! nat (sint lvl)\<rparr> \<and>
      (list_all keeps_Level opts \<and> New now lvl msg opts = Inr l \<longrightarrow>
         Level l = LevelLabels ! nat (sint lvl))) \<and>
   (\<not> (0 \<le> sint lvl \<and> sint lvl \<le> 5) \<longrightarrow>
      New now lvl msg opts = Inl IndexOutOfRange \<and> LogLevel_String lvl = Inl IndexOutOfRange) \<and>
   map LevelLabels_index [LevelUnknown, LevelDebug, LevelInfo, LevelWarn, LevelError, LevelPanic] =
     [Inr ''UNKNOWN'', Inr ''DEBUG'', Inr ''INFO'', Inr ''WARN'', Inr ''ERROR'', Inr ''PANIC'']"
proof -
  have "length LevelLabels = 6"
    by (simp add: LevelLabels_def)
  then have i: "LevelLabels_index lvl =
      (if 0 \<le> sint lvl \<and> sint lvl \<le> 5 then Inr (LevelLabels ! nat (sint lvl))
       else Inl IndexOutOfRange)"
    by (auto simp: LevelLabels_index_def)
  have "map LevelLabels_index [LevelUnknown, LevelDebug, LevelInfo, LevelWarn, LevelError, LevelPanic] =
     [Inr ''UNKNOWN'', Inr ''DEBUG'', Inr ''INFO'', Inr ''WARN'', Inr ''ERROR'', Inr ''PANIC'']"
    by (simp add: LevelLabels_index_def LevelLabels_def LevelUnknown_def LevelDebug_def
        LevelInfo_def LevelWarn_def LevelError_def LevelPanic_def)
  then show ?thesis
    using i apply_options_keeps_Level [of opts _ l]
    by (auto simp: New_def LogLevel_String_def)
qed

theorem New_level_label_witness:
  "New (Time 7) LevelInfo ''m'' [WithData ''k'' (AString ''v'')] =
     Inr \<lparr>Message = ''m'', Data = Some [(''k'', AString ''v'')], CreatedAt = Time 7,
          Level = ''INFO''\<rparr> \<and>
   New (Time 7) 6 ''m'' [WithData ''k'' (AString ''v'')] = Inl IndexOutOfRange \<and>
   New (Time 7) (- 1) ''m'' [WithData ''k'' (AString ''v'')] = Inl IndexOutOfRange"
proof -
  let ?opts = "[WithData ''k'' (AString ''v'')] :: (unit LevelLog_ext) LogOption list"
  let ?l = "\<lparr>Message = ''m'', Data = Some [(''k'', AString ''v'')], CreatedAt = Time 7,
      Level = ''INFO''\<rparr>"
  have k: "list_all keeps_Level ?opts"
    by (simp add: keeps_Level_WithData)
  have n: "New (Time 7) LevelInfo ''m'' ?opts = Inr ?l"
    by (simp add: New_def LevelLabels_index_def LevelLabels_def LevelInfo_def WithData_def
        Data_assign_def)
  have r: "0 \<le> sint LevelInfo \<and> sint LevelInfo \<le> 5"
    and r6: "\<not> (0 \<le> sint (6 :: go_int) \<and> sint (6 :: go_int) \<le> 5)"
    and r1: "\<not> (0 \<le> sint (- 1 :: go_int) \<and> sint (- 1 :: go_int) \<le> 5)"
    by (simp_all add: LevelInfo_def)
  show ?thesis
    using New_level_label [of LevelInfo "Time 7" "''m''" ?opts ?l]
      New_level_label [of 6 "Time 7" "''m''" ?opts ?l]
      New_level_label [of "- 1" "Time 7" "''m''" ?opts ?l] k n r r6 r1
    by simp
qed

text \<open>
  The claim as stated fails on \<^verbatim>\<open>New(LevelInfo, "m", func(l *Log) { l.Level = "HACKED" })\<close>:
  the level is in range and its label is \<^verbatim>\<open>INFO\<close>, but the record returned has the
  level the option wrote.
\<close>

theorem New_level_label_counterexample:
  "New (Time 7) LevelInfo ''m'' [setLevel ''HACKED''] =
     Inr \<lparr>Message = ''m'', Data = Some [], CreatedAt = Time 7, Level = ''HACKED''\<rparr> \<and>
   0 \<le> sint LevelInfo \<and> sint LevelInfo \<le> 5 \<and>
   LevelLabels ! nat (sint LevelInfo) = ''INFO'' \<and>
   ''HACKED'' \<noteq> LevelLabels ! nat (sint LevelInfo)"
  by (simp add: New_def LevelLabels_index_def LevelLabels_def LevelInfo_def setLevel_def)

end
